theory Spec2Isabelle
  imports Main "HOL-Library.Word"
begin

section \<open>Collaborator types\<close>

text \<open>
  The service in \<^verbatim>\<open>pkg/service/service.go\<close> talks to a policy service through
  \<^verbatim>\<open>rpc.IOInfoClient\<close> and hands its decisions to the SIP layer as
  \<^verbatim>\<open>sip.CallDispatch\<close>. The message and result types are declared in other packages;
  they are written here with the fields the service reads and writes. Go strings are
  \<^typ>\<open>string\<close>, and a field a struct literal leaves out holds the zero value \<open>''''\<close>.
  Where two messages have a field of the same name, the rpc message's field carries the
  prefix \<open>Req_\<close>, \<open>Auth_\<close> or \<open>Resp_\<close>.
\<close>

datatype error =
  RPCError string
  | UnexpectedDispatchResult "32 word"

record CallInfo =
  FromUser :: string
  ToUser :: string
  ToHost :: string
  SrcAddress :: string
  Pin :: string
  NoPin :: bool

datatype DispatchResult =
  DispatchAccept
  | DispatchRequestPin
  | DispatchNoRuleReject
  | DispatchNoRuleDrop

record CallDispatch =
  Result :: DispatchResult
  RoomName :: string
  Identity :: string
  Name :: string
  Metadata :: string
  WsUrl :: string
  Token :: string
  TrunkID :: string
  DispatchRuleID :: string

record GetSIPTrunkAuthenticationRequest =
  From :: string
  To :: string
  Auth_ToHost :: string
  Auth_SrcAddress :: string

record GetSIPTrunkAuthenticationResponse =
  Username :: string
  Password :: string
  Drop :: bool

record EvaluateSIPDispatchRulesRequest =
  CallingNumber :: string
  CalledNumber :: string
  CalledHost :: string
  Req_SrcAddress :: string
  Req_Pin :: string
  Req_NoPin :: bool

text \<open>
  \<^verbatim>\<open>rpc.SIPDispatchResult\<close> is a protobuf enumeration, an \<^verbatim>\<open>int32\<close> in Go: a response
  can carry any 32-bit value, of which five are named.
\<close>

type_synonym SIPDispatchResult = "32 word"

definition SIPDispatchResult_LEGACY_ACCEPT_OR_PIN :: SIPDispatchResult where
  "SIPDispatchResult_LEGACY_ACCEPT_OR_PIN = 0"

definition SIPDispatchResult_ACCEPT :: SIPDispatchResult where
  "SIPDispatchResult_ACCEPT = 1"

definition SIPDispatchResult_REQUEST_PIN :: SIPDispatchResult where
  "SIPDispatchResult_REQUEST_PIN = 2"

definition SIPDispatchResult_REJECT :: SIPDispatchResult where
  "SIPDispatchResult_REJECT = 3"

definition SIPDispatchResult_DROP :: SIPDispatchResult where
  "SIPDispatchResult_DROP = 4"

record EvaluateSIPDispatchRulesResponse =
  Resp_Result :: SIPDispatchResult
  RequestPin :: bool
  Resp_RoomName :: string
  ParticipantIdentity :: string
  ParticipantName :: string
  ParticipantMetadata :: string
  Resp_WsUrl :: string
  Resp_Token :: string
  SipTrunkId :: string
  SipDispatchRuleId :: string

text \<open>
  The client interface: each method answers a request with a transport error (\<open>Inl\<close>)
  or a response (\<open>Inr\<close>). The context argument carries no data the service reads.
\<close>

record IOInfoClient =
  GetSIPTrunkAuthentication ::
    "GetSIPTrunkAuthenticationRequest \<Rightarrow> error + GetSIPTrunkAuthenticationResponse"
  EvaluateSIPDispatchRules ::
    "EvaluateSIPDispatchRulesRequest \<Rightarrow> error + EvaluateSIPDispatchRulesResponse"

record Config =
  ClusterID :: string
  PrometheusPort :: int

section \<open>Effects\<close>

text \<open>
  What a method does besides returning a value is recorded as a list of effects, in
  program order: requests sent to the policy service, log lines, and the calls the main
  loop makes on the rpc server, the injected callbacks and the listener.
\<close>

datatype effect =
  Call_GetSIPTrunkAuthentication GetSIPTrunkAuthenticationRequest
  | Call_EvaluateSIPDispatchRules EvaluateSIPDispatchRulesRequest
  | Log_Debugw string
  | Log_Infow string
  | Log_Warnw string error
  | Log_Errorw string error
  | Net_Listen int
  | PromServer_Serve
  | PromListener_Close
  | NewSIPInternalServer
  | Server_RegisterCreateSIPParticipantTopic string
  | Server_DeregisterCreateSIPParticipantTopic string
  | Server_Shutdown
  | Killed_Load bool
  | SipServiceActiveCalls int
  | Printf_waiting int
  | Sleep_shutdownTimer
  | SipServiceStop

section \<open>The service\<close>

text \<open>
  The fields of \<^verbatim>\<open>Service\<close> that the methods read or write. \<open>promServer\<close> holds the
  port of the metrics listener when one is configured, \<open>rpcSIPServer\<close> is \<open>None\<close> for
  the nil interface, \<open>shutdown\<close> is the state of the \<^verbatim>\<open>core.Fuse\<close> (\<open>True\<close> once broken)
  and \<open>killed\<close> the value of the \<^verbatim>\<open>atomic.Bool\<close>. The two callbacks
  \<^verbatim>\<open>sipServiceStop\<close> and \<^verbatim>\<open>sipServiceActiveCalls\<close> appear as effects; what the second
  one answers is part of the schedule given to \<open>Run\<close> below.
\<close>

datatype SIPInternalServer = SIPInternalServer

record Service =
  conf :: Config
  psrpcClient :: IOInfoClient
  promServer :: "int option"
  rpcSIPServer :: "SIPInternalServer option"
  shutdown :: bool
  killed :: bool

definition NewService :: "Config \<Rightarrow> IOInfoClient \<Rightarrow> Service" where
  "NewService cfg cli =
     \<lparr>conf = cfg, psrpcClient = cli,
      promServer = (if PrometheusPort cfg > 0 then Some (PrometheusPort cfg) else None),
      rpcSIPServer = None, shutdown = False, killed = False\<rparr>"

definition shutdown_Break :: "Service \<Rightarrow> Service" where
  "shutdown_Break s = s\<lparr>shutdown := True\<rparr>"

definition killed_Store :: "bool \<Rightarrow> Service \<Rightarrow> Service" where
  "killed_Store b s = s\<lparr>killed := b\<rparr>"

definition Stop :: "bool \<Rightarrow> Service \<Rightarrow> Service" where
  "Stop kill s = killed_Store kill (shutdown_Break s)"

definition CanAccept :: "Service \<Rightarrow> bool" where
  "CanAccept s = (\<not> shutdown s)"

definition RegisterCreateSIPParticipantTopic ::
  "Service \<Rightarrow> error option \<Rightarrow> error option \<times> effect list" where
  "RegisterCreateSIPParticipantTopic s answer =
     (if rpcSIPServer s \<noteq> None
      then (answer, [Server_RegisterCreateSIPParticipantTopic (ClusterID (conf s))])
      else (None, []))"

definition DeregisterCreateSIPParticipantTopic :: "Service \<Rightarrow> effect list" where
  "DeregisterCreateSIPParticipantTopic s =
     (if rpcSIPServer s \<noteq> None
      then [Server_DeregisterCreateSIPParticipantTopic (ClusterID (conf s))]
      else [])"

subsection \<open>Trunk authentication\<close>

definition GetAuthCredentials ::
  "Service \<Rightarrow> string \<Rightarrow> string \<Rightarrow> string \<Rightarrow> string
     \<Rightarrow> (string \<times> string \<times> bool \<times> error option) \<times> effect list" where
  "GetAuthCredentials s from to toHost srcAddress =
     (let req = \<lparr>From = from, To = to, Auth_ToHost = toHost, Auth_SrcAddress = srcAddress\<rparr>
      in case GetSIPTrunkAuthentication (psrpcClient s) req of
           Inl err \<Rightarrow> (('''', '''', False, Some err), [Call_GetSIPTrunkAuthentication req])
         | Inr resp \<Rightarrow>
             ((Username resp, Password resp, Drop resp, None),
              [Call_GetSIPTrunkAuthentication req]))"

subsection \<open>Dispatch\<close>

definition CallDispatch_zero :: CallDispatch where
  "CallDispatch_zero =
     \<lparr>Result = DispatchAccept, RoomName = '''', Identity = '''', Name = '''', Metadata = '''',
      WsUrl = '''', Token = '''', TrunkID = '''', DispatchRuleID = ''''\<rparr>"

definition dispatch_request :: "CallInfo \<Rightarrow> EvaluateSIPDispatchRulesRequest" where
  "dispatch_request info =
     \<lparr>CallingNumber = FromUser info, CalledNumber = ToUser info, CalledHost = ToHost info,
      Req_SrcAddress = SrcAddress info, Req_Pin = Pin info, Req_NoPin = NoPin info\<rparr>"

definition DispatchCall :: "Service \<Rightarrow> CallInfo \<Rightarrow> CallDispatch \<times> effect list" where
  "DispatchCall s info =
     (let req = dispatch_request info
      in case EvaluateSIPDispatchRules (psrpcClient s) req of
           Inl err \<Rightarrow>
             (CallDispatch_zero\<lparr>Result := DispatchNoRuleReject\<rparr>,
              [Call_EvaluateSIPDispatchRules req,
               Log_Warnw ''SIP handle dispatch rule error'' err])
         | Inr resp \<Rightarrow>
             (if Resp_Result resp = SIPDispatchResult_LEGACY_ACCEPT_OR_PIN then
                (if RequestPin resp
                 then (CallDispatch_zero\<lparr>Result := DispatchRequestPin\<rparr>,
                       [Call_EvaluateSIPDispatchRules req])
                 else (\<lparr>Result = DispatchAccept,
                        RoomName = Resp_RoomName resp,
                        Identity = ParticipantIdentity resp,
                        Name = ParticipantName resp,
                        Metadata = ParticipantMetadata resp,
                        WsUrl = Resp_WsUrl resp,
                        Token = Resp_Token resp,
                        TrunkID = SipTrunkId resp,
                        DispatchRuleID = SipDispatchRuleId resp\<rparr>,
                       [Call_EvaluateSIPDispatchRules req]))
              else if Resp_Result resp = SIPDispatchResult_ACCEPT then
                (\<lparr>Result = DispatchAccept,
                  RoomName = Resp_RoomName resp,
                  Identity = ParticipantIdentity resp,
                  Name = ParticipantName resp,
                  Metadata = ParticipantMetadata resp,
                  WsUrl = Resp_WsUrl resp,
                  Token = Resp_Token resp,
                  TrunkID = SipTrunkId resp,
                  DispatchRuleID = SipDispatchRuleId resp\<rparr>,
                 [Call_EvaluateSIPDispatchRules req])
              else if Resp_Result resp = SIPDispatchResult_REQUEST_PIN then
                (CallDispatch_zero\<lparr>Result := DispatchRequestPin, TrunkID := SipTrunkId resp\<rparr>,
                 [Call_EvaluateSIPDispatchRules req])
              else if Resp_Result resp = SIPDispatchResult_REJECT then
                (CallDispatch_zero\<lparr>Result := DispatchNoRuleReject\<rparr>,
                 [Call_EvaluateSIPDispatchRules req])
              else if Resp_Result resp = SIPDispatchResult_DROP then
                (CallDispatch_zero\<lparr>Result := DispatchNoRuleDrop\<rparr>,
                 [Call_EvaluateSIPDispatchRules req])
              else
                (CallDispatch_zero\<lparr>Result := DispatchNoRuleReject\<rparr>,
                 [Call_EvaluateSIPDispatchRules req,
                  Log_Errorw ''SIP handle dispatch rule error''
                    (UnexpectedDispatchResult (Resp_Result resp))])))"

subsection \<open>Lifecycle\<close>

text \<open>
  \<^verbatim>\<open>Stop\<close> is called from other goroutines while \<^verbatim>\<open>Run\<close> is in its loop, and its two
  statements are separate atomic operations. A schedule says what the loop meets on each
  pass: the atomic operations of concurrent \<^verbatim>\<open>Stop\<close> calls that take effect before the
  pass reads the fuse and the flag (in the order they take effect), and what
  \<^verbatim>\<open>sipServiceActiveCalls\<close> answers if the pass asks. A pass that finds the fuse intact
  stays blocked in the \<^verbatim>\<open>select\<close>. A schedule is finite, so \<open>None\<close> says that \<^verbatim>\<open>Run\<close> has
  not returned by the end of the schedule. The gauge answers a Go \<^verbatim>\<open>int\<close>, of which the
  loop only asks whether it is positive; it is an \<^typ>\<open>int\<close> here. \<open>startup\<close> holds what
  the three fallible calls before the loop answer, \<open>None\<close> for a nil error.
\<close>

datatype atomic_step = Shutdown_Break | Killed_Store bool

fun apply_step :: "atomic_step \<Rightarrow> Service \<Rightarrow> Service" where
  "apply_step Shutdown_Break s = shutdown_Break s"
| "apply_step (Killed_Store b) s = killed_Store b s"

definition Stop_steps :: "bool \<Rightarrow> atomic_step list" where
  "Stop_steps kill = [Shutdown_Break, Killed_Store kill]"

record tick =
  steps :: "atomic_step list"
  activeCalls :: int

record startup =
  Listen_answer :: "error option"
  NewSIPInternalServer_answer :: "error option"
  Register_answer :: "error option"

fun Run_loop :: "Service \<Rightarrow> tick list \<Rightarrow> (Service \<times> effect list) option" where
  "Run_loop s [] = None"
| "Run_loop s (t # ts) =
     (let s1 = fold apply_step (steps t) s in
      if \<not> shutdown s1 then Run_loop s1 ts
      else
        (let ev = Log_Infow ''shutting down'' # DeregisterCreateSIPParticipantTopic s1
                    @ [Killed_Load (killed s1)]
         in if \<not> killed s1 then
              (let n = activeCalls t in
               if n > 0 then
                 (case Run_loop s1 ts of
                    None \<Rightarrow> None
                  | Some (s2, rest) \<Rightarrow>
                      Some (s2, ev @ [SipServiceActiveCalls n, Printf_waiting n,
                                      Sleep_shutdownTimer] @ rest))
               else Some (s1, ev @ [SipServiceActiveCalls n, SipServiceStop]))
            else Some (s1, ev @ [SipServiceStop])))"

definition Run ::
  "Service \<Rightarrow> startup \<Rightarrow> tick list \<Rightarrow> (error option \<times> Service \<times> effect list) option" where
  "Run s env sched =
     (let starting = [Log_Debugw ''starting service''] in
      case (case promServer s of
              None \<Rightarrow> Inr ([], [])
            | Some port \<Rightarrow>
                (case Listen_answer env of
                   Some err \<Rightarrow> Inl (err, [Net_Listen port])
                 | None \<Rightarrow> Inr ([Net_Listen port, PromServer_Serve], [PromListener_Close]))) of
        Inl (err, ev) \<Rightarrow> Some (Some err, s, starting @ ev)
      | Inr (prom, deferred) \<Rightarrow>
          (case NewSIPInternalServer_answer env of
             Some err \<Rightarrow>
               Some (Some err, s\<lparr>rpcSIPServer := None\<rparr>,
                     starting @ prom @ [NewSIPInternalServer] @ deferred)
           | None \<Rightarrow>
               (let s1 = s\<lparr>rpcSIPServer := Some SIPInternalServer\<rparr> in
                case RegisterCreateSIPParticipantTopic s1 (Register_answer env) of
                  (Some err, reg) \<Rightarrow>
                    Some (Some err, s1,
                          starting @ prom @ [NewSIPInternalServer] @ reg
                            @ [Server_Shutdown] @ deferred)
                | (None, reg) \<Rightarrow>
                    (case Run_loop s1 sched of
                       None \<Rightarrow> None
                     | Some (s2, ev) \<Rightarrow>
                         Some (None, s2,
                               starting @ prom @ [NewSIPInternalServer] @ reg
                                 @ [Log_Debugw ''service ready''] @ ev
                                 @ [Server_Shutdown] @ deferred)))))"

section \<open>Reading a list of effects\<close>

fun is_request :: "effect \<Rightarrow> bool" where
  "is_request (Call_GetSIPTrunkAuthentication _) = True"
| "is_request (Call_EvaluateSIPDispatchRules _) = True"
| "is_request _ = False"

fun is_register :: "effect \<Rightarrow> bool" where
  "is_register (Server_RegisterCreateSIPParticipantTopic _) = True"
| "is_register _ = False"

fun is_deregister :: "effect \<Rightarrow> bool" where
  "is_deregister (Server_DeregisterCreateSIPParticipantTopic _) = True"
| "is_deregister _ = False"

fun is_poll :: "effect \<Rightarrow> bool" where
  "is_poll (SipServiceActiveCalls _) = True"
| "is_poll _ = False"

definition requests :: "effect list \<Rightarrow> nat" where
  "requests tr = length (filter is_request tr)"

definition registrations :: "effect list \<Rightarrow> nat" where
  "registrations tr = length (filter is_register tr)"

definition deregistrations :: "effect list \<Rightarrow> nat" where
  "deregistrations tr = length (filter is_deregister tr)"

definition polls :: "effect list \<Rightarrow> nat" where
  "polls tr = length (filter is_poll tr)"

definition sleeps :: "effect list \<Rightarrow> nat" where
  "sleeps tr = count_list tr Sleep_shutdownTimer"

definition effects_of ::
  "(error option \<times> Service \<times> effect list) option \<Rightarrow> (error option \<times> effect list) option" where
  "effects_of r = map_option (\<lambda>(err, s, tr). (err, tr)) r"

section \<open>Sample values\<close>

definition sample_info :: CallInfo where
  "sample_info =
     \<lparr>FromUser = ''1000'', ToUser = ''2000'', ToHost = ''sip.example.com'',
      SrcAddress = ''192.0.2.7'', Pin = '''', NoPin = False\<rparr>"

definition sample_response :: "SIPDispatchResult \<Rightarrow> bool \<Rightarrow> EvaluateSIPDispatchRulesResponse" where
  "sample_response code pin =
     \<lparr>Resp_Result = code, RequestPin = pin, Resp_RoomName = ''room-a'',
      ParticipantIdentity = ''caller-1000'', ParticipantName = ''Caller'',
      ParticipantMetadata = ''meta'', Resp_WsUrl = ''wss://lk.example.com'',
      Resp_Token = ''tok'', SipTrunkId = ''ST_1'', SipDispatchRuleId = ''SDR_1''\<rparr>"

definition sample_credentials :: GetSIPTrunkAuthenticationResponse where
  "sample_credentials = \<lparr>Username = ''trunk'', Password = ''secret'', Drop = False\<rparr>"

definition sample_client ::
  "error + GetSIPTrunkAuthenticationResponse \<Rightarrow> error + EvaluateSIPDispatchRulesResponse
     \<Rightarrow> IOInfoClient" where
  "sample_client auth disp =
     \<lparr>GetSIPTrunkAuthentication = (\<lambda>_. auth), EvaluateSIPDispatchRules = (\<lambda>_. disp)\<rparr>"

definition sample_service ::
  "error + GetSIPTrunkAuthenticationResponse \<Rightarrow> error + EvaluateSIPDispatchRulesResponse
     \<Rightarrow> Service" where
  "sample_service auth disp =
     NewService \<lparr>ClusterID = ''cluster-1'', PrometheusPort = 0\<rparr> (sample_client auth disp)"

definition idle_service :: Service where
  "idle_service = sample_service (Inl (RPCError ''unreachable'')) (Inl (RPCError ''unreachable''))"

definition startup_ok :: startup where
  "startup_ok =
     \<lparr>Listen_answer = None, NewSIPInternalServer_answer = None, Register_answer = None\<rparr>"

definition pass :: "atomic_step list \<Rightarrow> int \<Rightarrow> tick" where
  "pass xs n = \<lparr>steps = xs, activeCalls = n\<rparr>"

definition drain_3_1_0 :: "effect list" where
  "drain_3_1_0 =
     [Log_Debugw ''starting service'', NewSIPInternalServer,
      Server_RegisterCreateSIPParticipantTopic ''cluster-1'', Log_Debugw ''service ready'',
      Log_Infow ''shutting down'', Server_DeregisterCreateSIPParticipantTopic ''cluster-1'',
      Killed_Load False, SipServiceActiveCalls 3, Printf_waiting 3, Sleep_shutdownTimer,
      Log_Infow ''shutting down'', Server_DeregisterCreateSIPParticipantTopic ''cluster-1'',
      Killed_Load False, SipServiceActiveCalls 1, Printf_waiting 1, Sleep_shutdownTimer,
      Log_Infow ''shutting down'', Server_DeregisterCreateSIPParticipantTopic ''cluster-1'',
      Killed_Load False, SipServiceActiveCalls 0, SipServiceStop, Server_Shutdown]"

section \<open>Properties\<close>

subsection \<open>Dispatch and authentication\<close>

lemmas code_defs =
  SIPDispatchResult_LEGACY_ACCEPT_OR_PIN_def SIPDispatchResult_ACCEPT_def
  SIPDispatchResult_REQUEST_PIN_def SIPDispatchResult_REJECT_def SIPDispatchResult_DROP_def

text \<open>
  Claim C3. For every \<open>CallInfo\<close>: when the dispatch-evaluation call returns a transport
  error, \<open>DispatchCall\<close> returns \<open>DispatchNoRuleReject\<close> with every other field empty, and
  its effects are one request followed by one warning, so exactly one request is sent.
\<close>

theorem DispatchCall_transport_error:
  assumes "EvaluateSIPDispatchRules (psrpcClient s) (dispatch_request info) = Inl err"
  shows "fst (DispatchCall s info) =
           \<lparr>Result = DispatchNoRuleReject, RoomName = '''', Identity = '''', Name = '''',
            Metadata = '''', WsUrl = '''', Token = '''', TrunkID = '''', DispatchRuleID = ''''\<rparr>
         \<and> snd (DispatchCall s info) =
             [Call_EvaluateSIPDispatchRules (dispatch_request info),
              Log_Warnw ''SIP handle dispatch rule error'' err]
         \<and> requests (snd (DispatchCall s info)) = 1"
  using assms by (simp add: DispatchCall_def CallDispatch_zero_def requests_def)

theorem DispatchCall_transport_error_witness:
  "EvaluateSIPDispatchRules (psrpcClient idle_service) (dispatch_request sample_info)
     = Inl (RPCError ''unreachable'')
   \<and> Result (fst (DispatchCall idle_service sample_info)) = DispatchNoRuleReject
   \<and> TrunkID (fst (DispatchCall idle_service sample_info)) = ''''
   \<and> requests (snd (DispatchCall idle_service sample_info)) = 1"
proof -
  have h: "EvaluateSIPDispatchRules (psrpcClient idle_service) (dispatch_request sample_info)
             = Inl (RPCError ''unreachable'')"
    by (simp add: idle_service_def sample_service_def sample_client_def NewService_def)
  from DispatchCall_transport_error [OF h] h show ?thesis by (simp add: requests_def)
qed

text \<open>
  Claim C4. For a legacy accept-or-PIN response with the request-PIN flag set the claim
  wants \<open>TrunkID\<close> taken from the response. The legacy branch returns
  \<open>DispatchRequestPin\<close> with every other field empty, \<open>TrunkID\<close> included, although the
  response carries the trunk id \<open>''ST_1''\<close>; the \<^verbatim>\<open>REQUEST_PIN\<close> branch does copy it.
\<close>

theorem DispatchCall_legacy_pin_drops_trunk:
  "fst (DispatchCall
          (sample_service (Inr sample_credentials)
             (Inr (sample_response SIPDispatchResult_LEGACY_ACCEPT_OR_PIN True)))
          sample_info)
     = \<lparr>Result = DispatchRequestPin, RoomName = '''', Identity = '''', Name = '''',
        Metadata = '''', WsUrl = '''', Token = '''', TrunkID = '''', DispatchRuleID = ''''\<rparr>
   \<and> SipTrunkId (sample_response SIPDispatchResult_LEGACY_ACCEPT_OR_PIN True) = ''ST_1''
   \<and> TrunkID (fst (DispatchCall
          (sample_service (Inr sample_credentials)
             (Inr (sample_response SIPDispatchResult_REQUEST_PIN False)))
          sample_info)) = ''ST_1''"
  by (simp add: DispatchCall_def CallDispatch_zero_def sample_service_def sample_client_def
      NewService_def sample_response_def code_defs)

text \<open>
  Claim C5. A response whose result code is none of the five named values yields
  \<open>DispatchNoRuleReject\<close> with every other field empty; it never yields \<open>DispatchAccept\<close>.
\<close>

theorem DispatchCall_unknown_code:
  assumes "EvaluateSIPDispatchRules (psrpcClient s) (dispatch_request info) = Inr resp"
    and "Resp_Result resp \<notin>
           {SIPDispatchResult_LEGACY_ACCEPT_OR_PIN, SIPDispatchResult_ACCEPT,
            SIPDispatchResult_REQUEST_PIN, SIPDispatchResult_REJECT, SIPDispatchResult_DROP}"
  shows "fst (DispatchCall s info) =
           \<lparr>Result = DispatchNoRuleReject, RoomName = '''', Identity = '''', Name = '''',
            Metadata = '''', WsUrl = '''', Token = '''', TrunkID = '''', DispatchRuleID = ''''\<rparr>
         \<and> Result (fst (DispatchCall s info)) \<noteq> DispatchAccept"
  using assms by (simp add: DispatchCall_def CallDispatch_zero_def)

theorem DispatchCall_unknown_code_witness:
  "EvaluateSIPDispatchRules
       (psrpcClient (sample_service (Inr sample_credentials) (Inr (sample_response 7 False))))
       (dispatch_request sample_info) = Inr (sample_response 7 False)
   \<and> Resp_Result (sample_response 7 False) \<notin>
           {SIPDispatchResult_LEGACY_ACCEPT_OR_PIN, SIPDispatchResult_ACCEPT,
            SIPDispatchResult_REQUEST_PIN, SIPDispatchResult_REJECT, SIPDispatchResult_DROP}
   \<and> Result (fst (DispatchCall
         (sample_service (Inr sample_credentials) (Inr (sample_response 7 False)))
         sample_info)) = DispatchNoRuleReject
   \<and> RoomName (fst (DispatchCall
         (sample_service (Inr sample_credentials) (Inr (sample_response 7 False)))
         sample_info)) = ''''"
proof -
  let ?s = "sample_service (Inr sample_credentials) (Inr (sample_response 7 False))"
  have h1: "EvaluateSIPDispatchRules (psrpcClient ?s) (dispatch_request sample_info)
              = Inr (sample_response 7 False)"
    by (simp add: sample_service_def sample_client_def NewService_def)
  have h2: "Resp_Result (sample_response 7 False) \<notin>
           {SIPDispatchResult_LEGACY_ACCEPT_OR_PIN, SIPDispatchResult_ACCEPT,
            SIPDispatchResult_REQUEST_PIN, SIPDispatchResult_REJECT, SIPDispatchResult_DROP}"
    by (simp add: sample_response_def code_defs)
  from DispatchCall_unknown_code [OF h1 h2] h1 h2 show ?thesis by simp
qed

text \<open>
  Claim C6. A legacy accept-or-PIN response without the request-PIN flag yields the same
  \<open>CallDispatch\<close> as the same response sent with the accept code: \<open>DispatchAccept\<close>
  with the eight fields copied from the response.
\<close>

theorem DispatchCall_legacy_accept:
  assumes "EvaluateSIPDispatchRules (psrpcClient s) (dispatch_request info) = Inr resp"
    and "Resp_Result resp = SIPDispatchResult_LEGACY_ACCEPT_OR_PIN"
    and "\<not> RequestPin resp"
    and "EvaluateSIPDispatchRules (psrpcClient s') (dispatch_request info)
           = Inr (resp\<lparr>Resp_Result := SIPDispatchResult_ACCEPT\<rparr>)"
  shows "fst (DispatchCall s info) = fst (DispatchCall s' info)
         \<and> fst (DispatchCall s info) =
             \<lparr>Result = DispatchAccept, RoomName = Resp_RoomName resp,
              Identity = ParticipantIdentity resp, Name = ParticipantName resp,
              Metadata = ParticipantMetadata resp, WsUrl = Resp_WsUrl resp,
              Token = Resp_Token resp, TrunkID = SipTrunkId resp,
              DispatchRuleID = SipDispatchRuleId resp\<rparr>"
  using assms by (simp add: DispatchCall_def code_defs)

theorem DispatchCall_legacy_accept_witness:
  "EvaluateSIPDispatchRules
       (psrpcClient (sample_service (Inr sample_credentials)
          (Inr (sample_response SIPDispatchResult_LEGACY_ACCEPT_OR_PIN False))))
       (dispatch_request sample_info)
     = Inr (sample_response SIPDispatchResult_LEGACY_ACCEPT_OR_PIN False)
   \<and> fst (DispatchCall
         (sample_service (Inr sample_credentials)
            (Inr (sample_response SIPDispatchResult_LEGACY_ACCEPT_OR_PIN False)))
         sample_info)
     = fst (DispatchCall
         (sample_service (Inr sample_credentials)
            (Inr (sample_response SIPDispatchResult_ACCEPT False)))
         sample_info)
   \<and> fst (DispatchCall
         (sample_service (Inr sample_credentials)
            (Inr (sample_response SIPDispatchResult_LEGACY_ACCEPT_OR_PIN False)))
         sample_info)
     = \<lparr>Result = DispatchAccept, RoomName = ''room-a'', Identity = ''caller-1000'',
        Name = ''Caller'', Metadata = ''meta'', WsUrl = ''wss://lk.example.com'',
        Token = ''tok'', TrunkID = ''ST_1'', DispatchRuleID = ''SDR_1''\<rparr>"
proof -
  let ?legacy = "sample_response SIPDispatchResult_LEGACY_ACCEPT_OR_PIN False"
  let ?s = "sample_service (Inr sample_credentials) (Inr ?legacy)"
  let ?s' = "sample_service (Inr sample_credentials)
               (Inr (sample_response SIPDispatchResult_ACCEPT False))"
  have h1: "EvaluateSIPDispatchRules (psrpcClient ?s) (dispatch_request sample_info) = Inr ?legacy"
    by (simp add: sample_service_def sample_client_def NewService_def)
  have h2: "Resp_Result ?legacy = SIPDispatchResult_LEGACY_ACCEPT_OR_PIN"
    by (simp add: sample_response_def)
  have h3: "\<not> RequestPin ?legacy"
    by (simp add: sample_response_def)
  have h4: "EvaluateSIPDispatchRules (psrpcClient ?s') (dispatch_request sample_info)
              = Inr (?legacy\<lparr>Resp_Result := SIPDispatchResult_ACCEPT\<rparr>)"
    by (simp add: sample_service_def sample_client_def NewService_def sample_response_def)
  note r = DispatchCall_legacy_accept [OF h1 h2 h3 h4]
  have e: "\<lparr>Result = DispatchAccept, RoomName = Resp_RoomName ?legacy,
             Identity = ParticipantIdentity ?legacy, Name = ParticipantName ?legacy,
             Metadata = ParticipantMetadata ?legacy, WsUrl = Resp_WsUrl ?legacy,
             Token = Resp_Token ?legacy, TrunkID = SipTrunkId ?legacy,
             DispatchRuleID = SipDispatchRuleId ?legacy\<rparr>
           = \<lparr>Result = DispatchAccept, RoomName = ''room-a'', Identity = ''caller-1000'',
              Name = ''Caller'', Metadata = ''meta'', WsUrl = ''wss://lk.example.com'',
              Token = ''tok'', TrunkID = ''ST_1'', DispatchRuleID = ''SDR_1''\<rparr>"
    by (simp add: sample_response_def)
  from r have a: "fst (DispatchCall ?s sample_info) = fst (DispatchCall ?s' sample_info)"
    by (rule conjunct1)
  from r have b: "fst (DispatchCall ?s sample_info) =
             \<lparr>Result = DispatchAccept, RoomName = Resp_RoomName ?legacy,
             Identity = ParticipantIdentity ?legacy, Name = ParticipantName ?legacy,
             Metadata = ParticipantMetadata ?legacy, WsUrl = Resp_WsUrl ?legacy,
             Token = Resp_Token ?legacy, TrunkID = SipTrunkId ?legacy,
             DispatchRuleID = SipDispatchRuleId ?legacy\<rparr>"
    by (rule conjunct2)
  show ?thesis
    by (intro conjI) (rule h1, rule a, rule trans [OF b e])
qed

text \<open>
  Claim C9. \<open>GetAuthCredentials\<close> sends exactly one request. A transport error is
  returned as it is, with empty credentials; a response gives its username, password and
  drop flag with no error.
\<close>

theorem GetAuthCredentials_round_trip:
  "requests (snd (GetAuthCredentials s from to toHost srcAddress)) = 1
   \<and> (\<forall>err. GetSIPTrunkAuthentication (psrpcClient s)
               \<lparr>From = from, To = to, Auth_ToHost = toHost, Auth_SrcAddress = srcAddress\<rparr> = Inl err
          \<longrightarrow> fst (GetAuthCredentials s from to toHost srcAddress) = ('''', '''', False, Some err))
   \<and> (\<forall>resp. GetSIPTrunkAuthentication (psrpcClient s)
               \<lparr>From = from, To = to, Auth_ToHost = toHost, Auth_SrcAddress = srcAddress\<rparr> = Inr resp
          \<longrightarrow> fst (GetAuthCredentials s from to toHost srcAddress)
                = (Username resp, Password resp, Drop resp, None))"
  by (simp add: GetAuthCredentials_def requests_def Let_def split: sum.splits)

theorem GetAuthCredentials_round_trip_witness:
  "fst (GetAuthCredentials idle_service ''1000'' ''2000'' ''sip.example.com'' ''192.0.2.7'')
     = ('''', '''', False, Some (RPCError ''unreachable''))
   \<and> fst (GetAuthCredentials
            (sample_service (Inr sample_credentials) (Inl (RPCError ''unreachable'')))
            ''1000'' ''2000'' ''sip.example.com'' ''192.0.2.7'')
     = (''trunk'', ''secret'', False, None)
   \<and> requests (snd (GetAuthCredentials idle_service
                      ''1000'' ''2000'' ''sip.example.com'' ''192.0.2.7'')) = 1"
  using GetAuthCredentials_round_trip
          [of idle_service "''1000''" "''2000''" "''sip.example.com''" "''192.0.2.7''"]
        GetAuthCredentials_round_trip
          [of "sample_service (Inr sample_credentials) (Inl (RPCError ''unreachable''))"
              "''1000''" "''2000''" "''sip.example.com''" "''192.0.2.7''"]
  by (simp add: idle_service_def sample_service_def sample_client_def NewService_def
      sample_credentials_def)

subsection \<open>Lifecycle\<close>

lemma fold_Stop_steps: "fold apply_step (Stop_steps kill) s = Stop kill s"
  by (simp add: Stop_steps_def Stop_def)

lemma apply_step_frame:
  "conf (apply_step x s) = conf s"
  "rpcSIPServer (apply_step x s) = rpcSIPServer s"
  by (cases x; simp add: shutdown_Break_def killed_Store_def)+

lemma fold_apply_step_frame:
  "conf (fold apply_step xs s) = conf s \<and> rpcSIPServer (fold apply_step xs s) = rpcSIPServer s"
  by (induction xs arbitrary: s) (simp_all add: apply_step_frame)

lemma shutdown_apply_step:
  "shutdown (apply_step x s) = (shutdown s \<or> x = Shutdown_Break)"
  by (cases x) (auto simp add: shutdown_Break_def killed_Store_def)

lemma shutdown_fold_apply_step:
  "shutdown (fold apply_step xs s) = (shutdown s \<or> Shutdown_Break \<in> set xs)"
  by (induction xs arbitrary: s) (auto simp add: shutdown_apply_step)

lemma Run_loop_Cons_blocked:
  "\<not> shutdown (fold apply_step (steps t) s) \<Longrightarrow>
   Run_loop s (t # ts) = Run_loop (fold apply_step (steps t) s) ts"
  by (simp add: Let_def)

lemma Run_loop_Cons_killed:
  "shutdown (fold apply_step (steps t) s) \<Longrightarrow> killed (fold apply_step (steps t) s) \<Longrightarrow>
   Run_loop s (t # ts) =
     Some (fold apply_step (steps t) s,
           Log_Infow ''shutting down''
             # DeregisterCreateSIPParticipantTopic (fold apply_step (steps t) s)
             @ [Killed_Load True, SipServiceStop])"
  by (simp add: Let_def)

lemma Run_loop_Cons_idle:
  "shutdown (fold apply_step (steps t) s) \<Longrightarrow> \<not> killed (fold apply_step (steps t) s) \<Longrightarrow>
   \<not> activeCalls t > 0 \<Longrightarrow>
   Run_loop s (t # ts) =
     Some (fold apply_step (steps t) s,
           Log_Infow ''shutting down''
             # DeregisterCreateSIPParticipantTopic (fold apply_step (steps t) s)
             @ [Killed_Load False, SipServiceActiveCalls (activeCalls t), SipServiceStop])"
  by (simp add: Let_def)

lemma Run_loop_Cons_busy:
  "shutdown (fold apply_step (steps t) s) \<Longrightarrow> \<not> killed (fold apply_step (steps t) s) \<Longrightarrow>
   activeCalls t > 0 \<Longrightarrow>
   Run_loop s (t # ts) =
     (case Run_loop (fold apply_step (steps t) s) ts of
        None \<Rightarrow> None
      | Some (s2, rest) \<Rightarrow>
          Some (s2, Log_Infow ''shutting down''
             # DeregisterCreateSIPParticipantTopic (fold apply_step (steps t) s)
             @ [Killed_Load False, SipServiceActiveCalls (activeCalls t),
                Printf_waiting (activeCalls t), Sleep_shutdownTimer] @ rest))"
  by (simp add: Let_def split: option.splits)

lemma Run_loop_cases [consumes 1, case_names blocked killed idle busy]:
  assumes run: "Run_loop s (t # ts) = Some (s', tr)"
  obtains
    (blocked) "\<not> shutdown (fold apply_step (steps t) s)"
      "Run_loop (fold apply_step (steps t) s) ts = Some (s', tr)"
  | (killed) "shutdown (fold apply_step (steps t) s)" "killed (fold apply_step (steps t) s)"
      "s' = fold apply_step (steps t) s"
      "tr = Log_Infow ''shutting down''
             # DeregisterCreateSIPParticipantTopic (fold apply_step (steps t) s)
             @ [Killed_Load True, SipServiceStop]"
  | (idle) "shutdown (fold apply_step (steps t) s)" "\<not> killed (fold apply_step (steps t) s)"
      "activeCalls t \<le> 0" "s' = fold apply_step (steps t) s"
      "tr = Log_Infow ''shutting down''
             # DeregisterCreateSIPParticipantTopic (fold apply_step (steps t) s)
             @ [Killed_Load False, SipServiceActiveCalls (activeCalls t), SipServiceStop]"
  | (busy) rest where
      "shutdown (fold apply_step (steps t) s)" "\<not> killed (fold apply_step (steps t) s)"
      "activeCalls t > 0" "Run_loop (fold apply_step (steps t) s) ts = Some (s', rest)"
      "tr = Log_Infow ''shutting down''
             # DeregisterCreateSIPParticipantTopic (fold apply_step (steps t) s)
             @ [Killed_Load False, SipServiceActiveCalls (activeCalls t),
                Printf_waiting (activeCalls t), Sleep_shutdownTimer] @ rest"
proof (cases "shutdown (fold apply_step (steps t) s)")
  case False
  have "Run_loop (fold apply_step (steps t) s) ts = Some (s', tr)"
    using run unfolding Run_loop_Cons_blocked [OF False] .
  with False show ?thesis by (rule blocked)
next
  case sh: True
  show ?thesis
  proof (cases "killed (fold apply_step (steps t) s)")
    case True
    from run have "Some (s', tr) = Some (fold apply_step (steps t) s,
           Log_Infow ''shutting down''
             # DeregisterCreateSIPParticipantTopic (fold apply_step (steps t) s)
             @ [Killed_Load True, SipServiceStop])"
      unfolding Run_loop_Cons_killed [OF sh True] by (rule sym)
    then show ?thesis using sh True by (intro killed) auto
  next
    case nk: False
    show ?thesis
    proof (cases "activeCalls t > 0")
      case False
      from run have "Some (s', tr) = Some (fold apply_step (steps t) s,
           Log_Infow ''shutting down''
             # DeregisterCreateSIPParticipantTopic (fold apply_step (steps t) s)
             @ [Killed_Load False, SipServiceActiveCalls (activeCalls t), SipServiceStop])"
        unfolding Run_loop_Cons_idle [OF sh nk False] by (rule sym)
      then show ?thesis using sh nk False by (intro idle) auto
    next
      case True
      from run have eq: "(case Run_loop (fold apply_step (steps t) s) ts of
        None \<Rightarrow> None
      | Some (s2, rest) \<Rightarrow>
          Some (s2, Log_Infow ''shutting down''
             # DeregisterCreateSIPParticipantTopic (fold apply_step (steps t) s)
             @ [Killed_Load False, SipServiceActiveCalls (activeCalls t),
                Printf_waiting (activeCalls t), Sleep_shutdownTimer] @ rest)) = Some (s', tr)"
        unfolding Run_loop_Cons_busy [OF sh nk True] .
      then obtain rest where
        r: "Run_loop (fold apply_step (steps t) s) ts = Some (s', rest)"
        and tr: "tr = Log_Infow ''shutting down''
             # DeregisterCreateSIPParticipantTopic (fold apply_step (steps t) s)
             @ [Killed_Load False, SipServiceActiveCalls (activeCalls t),
                Printf_waiting (activeCalls t), Sleep_shutdownTimer] @ rest"
        by (auto split: option.splits)
      from sh nk True r tr show ?thesis by (rule busy)
    qed
  qed
qed

lemma counts_Nil [simp]:
  "registrations [] = 0" "deregistrations [] = 0" "sleeps [] = 0" "polls [] = 0"
  by (simp_all add: registrations_def deregistrations_def sleeps_def polls_def)

lemma counts_Cons [simp]:
  "registrations (e # tr) = (if is_register e then 1 else 0) + registrations tr"
  "deregistrations (e # tr) = (if is_deregister e then 1 else 0) + deregistrations tr"
  "sleeps (e # tr) = (if e = Sleep_shutdownTimer then 1 else 0) + sleeps tr"
  "polls (e # tr) = (if is_poll e then 1 else 0) + polls tr"
  by (simp_all add: registrations_def deregistrations_def sleeps_def polls_def)

lemma counts_append [simp]:
  "registrations (tr @ tr') = registrations tr + registrations tr'"
  "deregistrations (tr @ tr') = deregistrations tr + deregistrations tr'"
  "sleeps (tr @ tr') = sleeps tr + sleeps tr'"
  "polls (tr @ tr') = polls tr + polls tr'"
  by (induction tr) simp_all

lemma Deregister_effects:
  "rpcSIPServer s \<noteq> None \<Longrightarrow>
   DeregisterCreateSIPParticipantTopic s
     = [Server_DeregisterCreateSIPParticipantTopic (ClusterID (conf s))]"
  by (simp add: DeregisterCreateSIPParticipantTopic_def)

lemma Run_loop_counts:
  "Run_loop s sched = Some (s', tr) \<Longrightarrow> rpcSIPServer s \<noteq> None \<Longrightarrow>
   deregistrations tr = sleeps tr + 1 \<and> registrations tr = 0"
proof (induction sched arbitrary: s tr)
  case Nil
  then show ?case by simp
next
  case (Cons t ts)
  let ?s1 = "fold apply_step (steps t) s"
  have srv: "rpcSIPServer ?s1 \<noteq> None"
    using Cons.prems(2) by (simp add: fold_apply_step_frame)
  from Cons.prems(1) show ?case
  proof (cases rule: Run_loop_cases)
    case blocked
    from Cons.IH [OF blocked(2) srv] show ?thesis .
  next
    case killed
    then show ?thesis by (simp add: Deregister_effects [OF srv])
  next
    case idle
    then show ?thesis by (simp add: Deregister_effects [OF srv])
  next
    case (busy rest)
    from Cons.IH [OF busy(4) srv] busy(5) show ?thesis
      by (simp add: Deregister_effects [OF srv])
  qed
qed

lemma Run_loop_order:
  "Run_loop s sched = Some (s', tr) \<Longrightarrow> rpcSIPServer s \<noteq> None \<Longrightarrow>
   \<exists>pre obs. tr = pre @ [obs, SipServiceStop]
     \<and> Server_DeregisterCreateSIPParticipantTopic (ClusterID (conf s)) \<in> set pre
     \<and> SipServiceStop \<notin> set pre \<and> Server_Shutdown \<notin> set pre
     \<and> PromListener_Close \<notin> set pre
     \<and> (obs = Killed_Load True
          \<or> (\<exists>t\<in>set sched. obs = SipServiceActiveCalls (activeCalls t) \<and> activeCalls t \<le> 0))"
proof (induction sched arbitrary: s tr)
  case Nil
  then show ?case by simp
next
  case (Cons t ts)
  let ?s1 = "fold apply_step (steps t) s"
  let ?d = "Server_DeregisterCreateSIPParticipantTopic (ClusterID (conf s))"
  have srv: "rpcSIPServer ?s1 \<noteq> None"
    using Cons.prems(2) by (simp add: fold_apply_step_frame)
  have der: "DeregisterCreateSIPParticipantTopic ?s1 = [?d]"
    using Deregister_effects [OF srv] by (simp add: fold_apply_step_frame)
  from Cons.prems(1) show ?case
  proof (cases rule: Run_loop_cases)
    case blocked
    from Cons.IH [OF blocked(2) srv] show ?thesis
      by (auto simp add: fold_apply_step_frame)
  next
    case killed
    have "tr = [Log_Infow ''shutting down'', ?d] @ [Killed_Load True, SipServiceStop]"
      using killed(4) der by simp
    then show ?thesis by (intro exI conjI) (assumption, simp_all)
  next
    case idle
    have "tr = [Log_Infow ''shutting down'', ?d, Killed_Load False]
                 @ [SipServiceActiveCalls (activeCalls t), SipServiceStop]"
      using idle(5) der by simp
    moreover have "\<exists>u\<in>set (t # ts).
        SipServiceActiveCalls (activeCalls t) = SipServiceActiveCalls (activeCalls u)
        \<and> activeCalls u \<le> 0"
      using idle(3) by auto
    ultimately show ?thesis by (intro exI conjI) (assumption, simp_all)
  next
    case (busy rest)
    from Cons.IH [OF busy(4) srv] obtain pre obs where
      rest: "rest = pre @ [obs, SipServiceStop]"
      and d: "?d \<in> set pre" and ns: "SipServiceStop \<notin> set pre"
      and nd: "Server_Shutdown \<notin> set pre" and nc: "PromListener_Close \<notin> set pre"
      and obs: "obs = Killed_Load True
          \<or> (\<exists>u\<in>set ts. obs = SipServiceActiveCalls (activeCalls u) \<and> activeCalls u \<le> 0)"
      by (auto simp add: fold_apply_step_frame)
    let ?pre = "[Log_Infow ''shutting down'', ?d, Killed_Load False,
                 SipServiceActiveCalls (activeCalls t), Printf_waiting (activeCalls t),
                 Sleep_shutdownTimer] @ pre"
    have "tr = ?pre @ [obs, SipServiceStop]"
      using busy(5) der rest by simp
    moreover have "?d \<in> set ?pre" "SipServiceStop \<notin> set ?pre" "Server_Shutdown \<notin> set ?pre"
      "PromListener_Close \<notin> set ?pre"
      using ns nd nc by simp_all
    moreover have "obs = Killed_Load True
          \<or> (\<exists>u\<in>set (t # ts). obs = SipServiceActiveCalls (activeCalls u) \<and> activeCalls u \<le> 0)"
      using obs by auto
    ultimately show ?thesis by blast
  qed
qed

lemma Run_loop_shutdown:
  "Run_loop s sched = Some (s', tr) \<Longrightarrow>
   shutdown s' \<and> (shutdown s \<or> (\<exists>t\<in>set sched. Shutdown_Break \<in> set (steps t)))"
proof (induction sched arbitrary: s tr)
  case Nil
  then show ?case by simp
next
  case (Cons t ts)
  from Cons.prems show ?case
  proof (cases rule: Run_loop_cases)
    case blocked
    from Cons.IH [OF blocked(2)] show ?thesis
      by (auto simp add: shutdown_fold_apply_step)
  next
    case killed
    then show ?thesis by (auto simp add: shutdown_fold_apply_step)
  next
    case idle
    then show ?thesis by (auto simp add: shutdown_fold_apply_step)
  next
    case (busy rest)
    from Cons.IH [OF busy(4)] show ?thesis
      by (auto simp add: shutdown_fold_apply_step)
  qed
qed

lemma Run_returns_nil:
  assumes "Run s env sched = Some (None, s', tr)"
  shows "\<exists>ev. Run_loop (s\<lparr>rpcSIPServer := Some SIPInternalServer\<rparr>) sched = Some (s', ev)
     \<and> tr = (Log_Debugw ''starting service''
              # (case promServer s of None \<Rightarrow> []
                 | Some port \<Rightarrow> [Net_Listen port, PromServer_Serve])
              @ [NewSIPInternalServer,
                 Server_RegisterCreateSIPParticipantTopic (ClusterID (conf s)),
                 Log_Debugw ''service ready''])
            @ ev
            @ Server_Shutdown
              # (case promServer s of None \<Rightarrow> [] | Some port \<Rightarrow> [PromListener_Close])"
  using assms
  by (auto simp add: Run_def Let_def RegisterCreateSIPParticipantTopic_def
      split: option.splits sum.splits prod.splits)

lemma Run_returns_error:
  assumes "Run s env sched = Some (Some e, s', tr)"
  shows "registrations tr \<le> 1 \<and> deregistrations tr = 0 \<and> sleeps tr = 0 \<and> polls tr = 0
         \<and> SipServiceStop \<notin> set tr \<and> shutdown s' = shutdown s"
  using assms
  by (auto simp add: Run_def Let_def RegisterCreateSIPParticipantTopic_def
      split: option.splits sum.splits prod.splits)

lemma Run_cong_loop:
  "(\<And>s1. Run_loop s1 sched = Run_loop s1 sched') \<Longrightarrow> Run s env sched = Run s env sched'"
  by (simp add: Run_def Let_def split: option.splits sum.splits prod.splits)

lemma Run_loop_last_Stop:
  "Run_loop s (pass (Stop_steps k1 @ Stop_steps k2) n # ts)
     = Run_loop s (pass (Stop_steps k2) n # ts)"
  by (simp add: pass_def Stop_steps_def shutdown_Break_def killed_Store_def Let_def)

lemma killed_fold_keeps:
  "Killed_Store (\<not> b) \<notin> set post \<Longrightarrow> killed s = b \<Longrightarrow> killed (fold apply_step post s) = b"
proof (induction post arbitrary: s)
  case Nil
  then show ?case by simp
next
  case (Cons x post)
  have "killed (apply_step x s) = b"
    using Cons.prems by (cases x) (auto simp add: shutdown_Break_def killed_Store_def)
  with Cons.IH [of "apply_step x s"] Cons.prems(1) show ?case by simp
qed

lemma killed_fold_last_store:
  "Killed_Store (\<not> b) \<notin> set post \<Longrightarrow>
   killed (fold apply_step (pre @ Killed_Store b # post) s) = b"
  by (simp add: killed_fold_keeps killed_Store_def)

lemmas sample_defs =
  idle_service_def sample_service_def sample_client_def NewService_def startup_ok_def pass_def

lemmas run_defs =
  Run_def effects_of_def RegisterCreateSIPParticipantTopic_def
  DeregisterCreateSIPParticipantTopic_def Stop_steps_def Stop_def shutdown_Break_def
  killed_Store_def Let_def

lemma Run_drain_3_1_0:
  "Run idle_service startup_ok [pass (Stop_steps False) 3, pass [] 1, pass [] 0]
     = Some (None, Stop False (idle_service\<lparr>rpcSIPServer := Some SIPInternalServer\<rparr>),
             drain_3_1_0)"
  by (simp add: sample_defs run_defs drain_3_1_0_def)

text \<open>
  Claim C1 says that of two calls \<open>Stop k1\<close> then \<open>Stop k2\<close> the loop observes \<open>k1\<close>.
  \<^verbatim>\<open>Stop\<close> stores its argument on every call, so the flag holds \<open>k2\<close>: after
  \<open>Stop False\<close> then \<open>Stop True\<close> the loop reads \<open>True\<close> and calls the stop callback on
  its first pass with three calls active, where after \<open>Stop False\<close> alone it polls, sleeps
  and polls again.
\<close>

theorem Stop_first_call_counterexample:
  "killed (Stop True (Stop False idle_service)) = True
   \<and> effects_of (Run idle_service startup_ok
        [pass (Stop_steps False @ Stop_steps True) 3, pass [] 0])
     = Some (None,
         [Log_Debugw ''starting service'', NewSIPInternalServer,
          Server_RegisterCreateSIPParticipantTopic ''cluster-1'', Log_Debugw ''service ready'',
          Log_Infow ''shutting down'', Server_DeregisterCreateSIPParticipantTopic ''cluster-1'',
          Killed_Load True, SipServiceStop, Server_Shutdown])
   \<and> effects_of (Run idle_service startup_ok [pass (Stop_steps False) 3, pass [] 0])
     = Some (None,
         [Log_Debugw ''starting service'', NewSIPInternalServer,
          Server_RegisterCreateSIPParticipantTopic ''cluster-1'', Log_Debugw ''service ready'',
          Log_Infow ''shutting down'', Server_DeregisterCreateSIPParticipantTopic ''cluster-1'',
          Killed_Load False, SipServiceActiveCalls 3, Printf_waiting 3, Sleep_shutdownTimer,
          Log_Infow ''shutting down'', Server_DeregisterCreateSIPParticipantTopic ''cluster-1'',
          Killed_Load False, SipServiceActiveCalls 0, SipServiceStop, Server_Shutdown])"
  by (simp add: sample_defs run_defs)

text \<open>
  Claim C1, amended. The fuse is one-shot, the flag is not: after \<open>Stop k1\<close> then
  \<open>Stop k2\<close> the fuse is broken and the flag is \<open>k2\<close>, the state is the one \<open>Stop k2\<close>
  alone leaves, and \<open>Run\<close> meeting both calls before a pass behaves as if it had met only
  the second.
\<close>

theorem Stop_last_call_wins:
  "killed (Stop k2 (Stop k1 s)) = k2
   \<and> shutdown (Stop k2 (Stop k1 s))
   \<and> Stop k2 (Stop k1 s) = Stop k2 s
   \<and> Run s env (pass (Stop_steps k1 @ Stop_steps k2) n # ts)
       = Run s env (pass (Stop_steps k2) n # ts)"
proof (intro conjI)
  show "killed (Stop k2 (Stop k1 s)) = k2"
    by (simp add: Stop_def shutdown_Break_def killed_Store_def)
  show "shutdown (Stop k2 (Stop k1 s))"
    by (simp add: Stop_def shutdown_Break_def killed_Store_def)
  show "Stop k2 (Stop k1 s) = Stop k2 s"
    by (simp add: Stop_def shutdown_Break_def killed_Store_def)
  show "Run s env (pass (Stop_steps k1 @ Stop_steps k2) n # ts)
          = Run s env (pass (Stop_steps k2) n # ts)"
    by (rule Run_cong_loop) (rule Run_loop_last_Stop)
qed

text \<open>
  Claim C2. In every run of \<open>Run\<close> that returns nil, the effects end with an observation,
  the stop callback, the server shutdown and the deferred listener close. Intake is
  deregistered before the observation, nothing before it is the stop callback, the
  server shutdown or the listener close, and the observation is either the flag read as
  \<open>True\<close> or an active-call count that is not positive: zero, for a gauge that never
  answers a negative count. The witness is the drain whose gauge answers 3, 1 and 0.
\<close>

theorem Run_shutdown_order:
  assumes "Run s env sched = Some (None, s', tr)"
  shows "\<exists>pre obs post.
           tr = pre @ obs # SipServiceStop # Server_Shutdown # post
         \<and> Server_DeregisterCreateSIPParticipantTopic (ClusterID (conf s)) \<in> set pre
         \<and> SipServiceStop \<notin> set pre \<and> Server_Shutdown \<notin> set pre
         \<and> PromListener_Close \<notin> set pre
         \<and> (obs = Killed_Load True
              \<or> (\<exists>t\<in>set sched. obs = SipServiceActiveCalls (activeCalls t)
                    \<and> activeCalls t \<le> 0))
         \<and> ((\<forall>t\<in>set sched. 0 \<le> activeCalls t)
               \<longrightarrow> obs = Killed_Load True \<or> obs = SipServiceActiveCalls 0)"
proof -
  let ?s1 = "s\<lparr>rpcSIPServer := Some SIPInternalServer\<rparr>"
  let ?d = "Server_DeregisterCreateSIPParticipantTopic (ClusterID (conf s))"
  let ?before = "Log_Debugw ''starting service''
              # (case promServer s of None \<Rightarrow> []
                 | Some port \<Rightarrow> [Net_Listen port, PromServer_Serve])
              @ [NewSIPInternalServer,
                 Server_RegisterCreateSIPParticipantTopic (ClusterID (conf s)),
                 Log_Debugw ''service ready'']"
  let ?post = "case promServer s of None \<Rightarrow> [] | Some port \<Rightarrow> [PromListener_Close]"
  from Run_returns_nil [OF assms] obtain ev where
    loop: "Run_loop ?s1 sched = Some (s', ev)"
    and tr: "tr = ?before @ ev @ Server_Shutdown # ?post"
    by blast
  have "rpcSIPServer ?s1 \<noteq> None" by simp
  from Run_loop_order [OF loop this] obtain pre obs where
    ev: "ev = pre @ [obs, SipServiceStop]"
    and d: "?d \<in> set pre" and ns: "SipServiceStop \<notin> set pre"
    and nd: "Server_Shutdown \<notin> set pre" and nc: "PromListener_Close \<notin> set pre"
    and obs: "obs = Killed_Load True
          \<or> (\<exists>t\<in>set sched. obs = SipServiceActiveCalls (activeCalls t) \<and> activeCalls t \<le> 0)"
    by auto
  have clean: "SipServiceStop \<notin> set ?before" "Server_Shutdown \<notin> set ?before"
    "PromListener_Close \<notin> set ?before"
    by (simp_all split: option.splits)
  have "tr = (?before @ pre) @ obs # SipServiceStop # Server_Shutdown # ?post"
    using tr ev by simp
  moreover have "?d \<in> set (?before @ pre)" using d by simp
  moreover have "SipServiceStop \<notin> set (?before @ pre)" using ns clean by simp
  moreover have "Server_Shutdown \<notin> set (?before @ pre)" using nd clean by simp
  moreover have "PromListener_Close \<notin> set (?before @ pre)" using nc clean by simp
  moreover have "(\<forall>t\<in>set sched. 0 \<le> activeCalls t)
               \<longrightarrow> obs = Killed_Load True \<or> obs = SipServiceActiveCalls 0"
    using obs by force
  ultimately show ?thesis using obs by blast
qed

theorem Run_shutdown_order_witness:
  "Run idle_service startup_ok [pass (Stop_steps False) 3, pass [] 1, pass [] 0]
     = Some (None, Stop False (idle_service\<lparr>rpcSIPServer := Some SIPInternalServer\<rparr>),
             drain_3_1_0)
   \<and> (\<exists>pre obs post.
           drain_3_1_0 = pre @ obs # SipServiceStop # Server_Shutdown # post
         \<and> Server_DeregisterCreateSIPParticipantTopic (ClusterID (conf idle_service)) \<in> set pre
         \<and> SipServiceStop \<notin> set pre \<and> Server_Shutdown \<notin> set pre
         \<and> PromListener_Close \<notin> set pre
         \<and> (obs = Killed_Load True
              \<or> (\<exists>t\<in>set [pass (Stop_steps False) 3, pass [] 1, pass [] 0].
                    obs = SipServiceActiveCalls (activeCalls t) \<and> activeCalls t \<le> 0))
         \<and> ((\<forall>t\<in>set [pass (Stop_steps False) 3, pass [] 1, pass [] 0]. 0 \<le> activeCalls t)
               \<longrightarrow> obs = Killed_Load True \<or> obs = SipServiceActiveCalls 0))"
  by (intro conjI) (rule Run_drain_3_1_0, rule Run_shutdown_order [OF Run_drain_3_1_0])

text \<open>
  Claim C7 says that a first call \<open>Stop True\<close> makes the loop skip the drain. A later
  \<open>Stop False\<close> overwrites the flag: with both calls made before the loop wakes and the
  gauge answering 3, 1 and 0, the gauge is asked three times and the loop sleeps twice.
\<close>

theorem Stop_true_first_counterexample:
  "effects_of (Run idle_service startup_ok
      [pass (Stop_steps True @ Stop_steps False) 3, pass [] 1, pass [] 0])
     = Some (None, drain_3_1_0)
   \<and> polls drain_3_1_0 = 3 \<and> sleeps drain_3_1_0 = 2"
  by (simp add: sample_defs run_defs drain_3_1_0_def)

text \<open>
  Claim C7, amended. On a pass that finds the fuse broken and reads the flag as \<open>True\<close>,
  whatever \<^verbatim>\<open>Stop\<close> calls came before or overlap and whatever the gauge would answer,
  the loop returns: its effects are the log line, the deregistration, the flag read as
  \<open>True\<close> and the stop callback, with no poll of the gauge and no sleep. The flag reads
  \<open>True\<close> when the last store to take effect before the read is that of a \<open>Stop True\<close>
  (\<open>killed_fold_last_store\<close>); the witness has two overlapping calls, \<open>Stop False\<close> and
  \<open>Stop True\<close>, of which \<open>Stop True\<close> stores last.
\<close>

theorem Run_loop_forced_kill:
  assumes "shutdown (fold apply_step (steps t) s)"
    and "killed (fold apply_step (steps t) s)"
  shows "\<exists>s' tr. Run_loop s (t # ts) = Some (s', tr)
           \<and> tr = Log_Infow ''shutting down'' # DeregisterCreateSIPParticipantTopic s
                    @ [Killed_Load True, SipServiceStop]
           \<and> polls tr = 0 \<and> sleeps tr = 0"
proof -
  let ?s1 = "fold apply_step (steps t) s"
  have der: "DeregisterCreateSIPParticipantTopic ?s1 = DeregisterCreateSIPParticipantTopic s"
    by (simp add: DeregisterCreateSIPParticipantTopic_def fold_apply_step_frame)
  have "Run_loop s (t # ts)
          = Some (?s1, Log_Infow ''shutting down'' # DeregisterCreateSIPParticipantTopic s
                    @ [Killed_Load True, SipServiceStop])"
    using Run_loop_Cons_killed [OF assms] der by simp
  moreover have "polls (Log_Infow ''shutting down'' # DeregisterCreateSIPParticipantTopic s
                    @ [Killed_Load True, SipServiceStop]) = 0"
    by (simp add: DeregisterCreateSIPParticipantTopic_def)
  moreover have "sleeps (Log_Infow ''shutting down'' # DeregisterCreateSIPParticipantTopic s
                    @ [Killed_Load True, SipServiceStop]) = 0"
    by (simp add: DeregisterCreateSIPParticipantTopic_def)
  ultimately show ?thesis by blast
qed

theorem Run_loop_forced_kill_witness:
  "shutdown (fold apply_step
      (steps (pass [Shutdown_Break, Shutdown_Break, Killed_Store False, Killed_Store True] 3))
      idle_service)
   \<and> killed (fold apply_step
      (steps (pass [Shutdown_Break, Shutdown_Break, Killed_Store False, Killed_Store True] 3))
      idle_service)
   \<and> (\<exists>s' tr. Run_loop idle_service
          [pass [Shutdown_Break, Shutdown_Break, Killed_Store False, Killed_Store True] 3]
            = Some (s', tr)
           \<and> tr = Log_Infow ''shutting down'' # DeregisterCreateSIPParticipantTopic idle_service
                    @ [Killed_Load True, SipServiceStop]
           \<and> polls tr = 0 \<and> sleeps tr = 0)"
proof -
  let ?t = "pass [Shutdown_Break, Shutdown_Break, Killed_Store False, Killed_Store True] 3"
  have h1: "shutdown (fold apply_step (steps ?t) idle_service)"
    by (simp add: pass_def shutdown_Break_def killed_Store_def)
  have h2: "killed (fold apply_step (steps ?t) idle_service)"
    by (simp add: pass_def shutdown_Break_def killed_Store_def)
  show ?thesis
    by (intro conjI) (rule h1, rule h2, rule Run_loop_forced_kill [OF h1 h2])
qed

text \<open>
  \<^verbatim>\<open>Stop\<close> breaks the fuse before it stores the flag. A pass that runs between the two
  statements of \<open>Stop True\<close> still reads \<open>False\<close>, polls and sleeps once; the next pass
  reads \<open>True\<close>. Hence the amended statement above speaks of the flag as the pass reads it.
\<close>

lemma Stop_true_interleaved:
  "effects_of (Run idle_service startup_ok
      [pass [Shutdown_Break] 3, pass [Killed_Store True] 3])
     = Some (None,
         [Log_Debugw ''starting service'', NewSIPInternalServer,
          Server_RegisterCreateSIPParticipantTopic ''cluster-1'', Log_Debugw ''service ready'',
          Log_Infow ''shutting down'', Server_DeregisterCreateSIPParticipantTopic ''cluster-1'',
          Killed_Load False, SipServiceActiveCalls 3, Printf_waiting 3, Sleep_shutdownTimer,
          Log_Infow ''shutting down'', Server_DeregisterCreateSIPParticipantTopic ''cluster-1'',
          Killed_Load True, SipServiceStop, Server_Shutdown])"
  by (simp add: sample_defs run_defs)

text \<open>
  Claim C8 says that intake is deregistered at most once. The deregistration stands
  inside the loop, before the flag is read, and \<^verbatim>\<open>continue\<close> re-enters the same
  \<^verbatim>\<open>case\<close>: a drain that polls 3, 1 and 0 deregisters three times.
\<close>

theorem Deregister_once_counterexample:
  "effects_of (Run idle_service startup_ok
      [pass (Stop_steps False) 3, pass [] 1, pass [] 0])
     = Some (None, drain_3_1_0)
   \<and> deregistrations drain_3_1_0 = 3"
  by (simp add: sample_defs run_defs drain_3_1_0_def)

text \<open>
  Claim C8, amended. In every run of \<open>Run\<close> that returns, intake is registered at most
  once. A run that returns nil deregisters once per pass of the shutdown loop, that is
  once more than it sleeps, so exactly once when the first pass ends the loop; a run that
  fails during startup does not deregister.
\<close>

theorem Run_registration_counts:
  assumes "Run s env sched = Some (err, s', tr)"
  shows "registrations tr \<le> 1
         \<and> deregistrations tr = (if err = None then sleeps tr + 1 else 0)"
proof (cases err)
  case None
  let ?s1 = "s\<lparr>rpcSIPServer := Some SIPInternalServer\<rparr>"
  from Run_returns_nil [OF assms [unfolded None]] obtain ev where
    loop: "Run_loop ?s1 sched = Some (s', ev)"
    and tr: "tr = (Log_Debugw ''starting service''
              # (case promServer s of None \<Rightarrow> []
                 | Some port \<Rightarrow> [Net_Listen port, PromServer_Serve])
              @ [NewSIPInternalServer,
                 Server_RegisterCreateSIPParticipantTopic (ClusterID (conf s)),
                 Log_Debugw ''service ready''])
            @ ev
            @ Server_Shutdown
              # (case promServer s of None \<Rightarrow> [] | Some port \<Rightarrow> [PromListener_Close])"
    by blast
  have "rpcSIPServer ?s1 \<noteq> None" by simp
  from Run_loop_counts [OF loop this] tr None show ?thesis
    by (simp split: option.splits)
next
  case (Some e)
  from Run_returns_error [OF assms [unfolded Some]] Some show ?thesis by simp
qed

theorem Run_registration_counts_witness:
  "Run idle_service startup_ok [pass (Stop_steps False) 3, pass [] 1, pass [] 0]
     = Some (None, Stop False (idle_service\<lparr>rpcSIPServer := Some SIPInternalServer\<rparr>),
             drain_3_1_0)
   \<and> registrations drain_3_1_0 \<le> 1
   \<and> deregistrations drain_3_1_0 = sleeps drain_3_1_0 + 1"
  using Run_registration_counts [OF Run_drain_3_1_0] Run_drain_3_1_0 by simp

text \<open>
  Claim C10. \<open>CanAccept\<close> is true of a new service and false after \<open>Stop\<close> with either
  argument; it stays false under any further steps of \<^verbatim>\<open>Stop\<close> calls and across \<open>Run\<close>.
  \<open>Run\<close> turns it from true to false only when its schedule holds the fuse-breaking step
  of a concurrent \<^verbatim>\<open>Stop\<close>. The other methods return no service, so they change nothing.
\<close>

theorem CanAccept_until_Stop:
  "CanAccept (NewService cfg cli)
   \<and> \<not> CanAccept (Stop kill s)
   \<and> \<not> CanAccept (fold apply_step xs (Stop kill s))
   \<and> (Run s env sched = Some (err, s', tr) \<longrightarrow> \<not> CanAccept s \<longrightarrow> \<not> CanAccept s')
   \<and> (Run s env sched = Some (err, s', tr) \<longrightarrow> CanAccept s \<longrightarrow> \<not> CanAccept s'
        \<longrightarrow> (\<exists>t\<in>set sched. Shutdown_Break \<in> set (steps t)))"
proof -
  have new: "CanAccept (NewService cfg cli)"
    by (simp add: CanAccept_def NewService_def)
  have stop: "shutdown (Stop kill s)"
    by (simp add: Stop_def shutdown_Break_def killed_Store_def)
  have run: "shutdown s' = (shutdown s \<or> (shutdown s' \<and> (\<exists>t\<in>set sched. Shutdown_Break \<in> set (steps t))))"
    if r: "Run s env sched = Some (err, s', tr)"
  proof (cases err)
    case None
    from Run_returns_nil [OF r [unfolded None]] obtain ev where
      "Run_loop (s\<lparr>rpcSIPServer := Some SIPInternalServer\<rparr>) sched = Some (s', ev)"
      by blast
    from Run_loop_shutdown [OF this] show ?thesis by auto
  next
    case (Some e)
    from Run_returns_error [OF r [unfolded Some]] show ?thesis by auto
  qed
  show ?thesis
    using new stop run by (auto simp add: CanAccept_def shutdown_fold_apply_step)
qed

theorem CanAccept_until_Stop_witness:
  "CanAccept idle_service
   \<and> \<not> CanAccept (Stop True idle_service)
   \<and> Run idle_service startup_ok [pass (Stop_steps False) 0]
       = Some (None, Stop False (idle_service\<lparr>rpcSIPServer := Some SIPInternalServer\<rparr>),
           [Log_Debugw ''starting service'', NewSIPInternalServer,
            Server_RegisterCreateSIPParticipantTopic ''cluster-1'', Log_Debugw ''service ready'',
            Log_Infow ''shutting down'', Server_DeregisterCreateSIPParticipantTopic ''cluster-1'',
            Killed_Load False, SipServiceActiveCalls 0, SipServiceStop, Server_Shutdown])
   \<and> \<not> CanAccept (Stop False (idle_service\<lparr>rpcSIPServer := Some SIPInternalServer\<rparr>))
   \<and> (\<exists>t\<in>set [pass (Stop_steps False) 0]. Shutdown_Break \<in> set (steps t))"
proof -
  let ?s' = "Stop False (idle_service\<lparr>rpcSIPServer := Some SIPInternalServer\<rparr>)"
  let ?tr = "[Log_Debugw ''starting service'', NewSIPInternalServer,
            Server_RegisterCreateSIPParticipantTopic ''cluster-1'', Log_Debugw ''service ready'',
            Log_Infow ''shutting down'', Server_DeregisterCreateSIPParticipantTopic ''cluster-1'',
            Killed_Load False, SipServiceActiveCalls 0, SipServiceStop, Server_Shutdown]"
  have h: "Run idle_service startup_ok [pass (Stop_steps False) 0] = Some (None, ?s', ?tr)"
    by (simp add: sample_defs run_defs)
  have a: "CanAccept idle_service"
    by (simp add: CanAccept_def sample_defs)
  have b: "\<not> CanAccept ?s'"
    by (simp add: CanAccept_def Stop_def shutdown_Break_def killed_Store_def)
  note t = CanAccept_until_Stop
    [of "\<lparr>ClusterID = ''cluster-1'', PrometheusPort = 0\<rparr>"
        "sample_client (Inl (RPCError ''unreachable'')) (Inl (RPCError ''unreachable''))"
        True idle_service "[]" startup_ok "[pass (Stop_steps False) 0]" None ?s' ?tr]
  from t h a b show ?thesis
    by (simp add: idle_service_def sample_service_def)
qed

end
